theory Spec2Isabelle
  imports Main "HOL-Library.Word"
begin

unbundle bit_operations_syntax

section \<open>The in-memory OTP cache (package backend)\<close>

text \<open>
  Instants of \<^verbatim>\<open>time.Time\<close> are nanosecond counts. They are unbounded integers here:
  the arithmetic of \<^verbatim>\<open>time.Time\<close> cannot overflow within the lifetime of a process.
  \<^verbatim>\<open>t.After(u)\<close> is the strict order \<open>u < t\<close>.
\<close>

type_synonym time = int

definition After :: "time \<Rightarrow> time \<Rightarrow> bool" where
  "After t u = (u < t)"

text \<open>\<^verbatim>\<open>otpExpiration = 5 * time.Minute\<close>, in nanoseconds.\<close>

definition otpExpiration :: int where
  "otpExpiration = 5 * (60 * 1000000000)"

text \<open>
  The errors of the \<^verbatim>\<open>OTPCache\<close> interface: the two public sentinel values, and any
  other error value an implementation of the interface may return.
\<close>

datatype cache_error = ErrOTPExpired | ErrOTPNotFound | ErrOther string

record otpEntry =
  otp :: string
  expiresAt :: time

text \<open>The field \<^verbatim>\<open>store map[string]otpEntry\<close>; the mutex has no sequential content.\<close>

type_synonym store = "string \<rightharpoonup> otpEntry"

text \<open>\<^verbatim>\<open>make(map[string]otpEntry)\<close> of \<^verbatim>\<open>NewMemoryOTPCache\<close>.\<close>

definition NewMemoryOTPCache :: store where
  "NewMemoryOTPCache = Map.empty"

text \<open>
  Every method takes the reading of \<^verbatim>\<open>time.Now()\<close> it makes (if any) and the table,
  and returns the table it leaves together with its Go result. An \<^verbatim>\<open>error\<close> result is
  an option, \<open>None\<close> for \<^verbatim>\<open>nil\<close>.
\<close>

definition SetOTP :: "time \<Rightarrow> store \<Rightarrow> string \<Rightarrow> string \<Rightarrow> store \<times> cache_error option" where
  "SetOTP now s phone code =
     (s(phone \<mapsto> \<lparr>otp = code, expiresAt = now + otpExpiration\<rparr>), None)"

definition GetOTP :: "time \<Rightarrow> store \<Rightarrow> string \<Rightarrow> store \<times> (cache_error + string)" where
  "GetOTP now s phone =
     (case s phone of
        None \<Rightarrow> (s, Inl ErrOTPNotFound)
      | Some entry \<Rightarrow>
          if After now (expiresAt entry) then (s(phone := None), Inl ErrOTPExpired)
          else (s, Inr (otp entry)))"

definition DeleteOTP :: "store \<Rightarrow> string \<Rightarrow> store \<times> cache_error option" where
  "DeleteOTP s phone = (s(phone := None), None)"

text \<open>
  One pass of the body of \<^verbatim>\<open>cleanup\<close>'s ticker loop. Go ranges over the map in an
  unspecified order, so the order \<open>ks\<close> in which the keys come up is an argument. A key
  that is no longer in the table when its turn comes is not produced by \<^verbatim>\<open>range\<close>.
\<close>

fun cleanup_range :: "time \<Rightarrow> string list \<Rightarrow> store \<Rightarrow> store" where
  "cleanup_range now [] s = s"
| "cleanup_range now (phone # ks) s =
     (case s phone of
        None \<Rightarrow> cleanup_range now ks s
      | Some entry \<Rightarrow>
          cleanup_range now ks
            (if After now (expiresAt entry) then s(phone := None) else s))"

text \<open>
  The ticker loop itself never ends; \<open>cleanup\<close> runs the pass once for each tick it is
  given, every tick with its own reading of the clock and its own iteration order.
\<close>

fun cleanup :: "(time \<times> string list) list \<Rightarrow> store \<Rightarrow> store" where
  "cleanup [] s = s"
| "cleanup ((now, ks) # ticks) s = cleanup ticks (cleanup_range now ks s)"

section \<open>The HTTP handlers (package main)\<close>

subsection \<open>Code generation\<close>

text \<open>\<^verbatim>\<open>strconv.Itoa\<close>: the decimal digits of an integer, with a minus sign when negative.\<close>

definition digit_char :: "nat \<Rightarrow> char" where
  "digit_char d = ''0123456789'' ! d"

fun digits10 :: "nat \<Rightarrow> string" where
  "digits10 n = (if n < 10 then [digit_char n] else digits10 (n div 10) @ [digit_char (n mod 10)])"

declare digits10.simps [simp del]

definition Itoa :: "int \<Rightarrow> string" where
  "Itoa i = (if i < 0 then CHR ''-'' # digits10 (nat (- i)) else digits10 (nat i))"

text \<open>
  \<^verbatim>\<open>binary.BigEndian.Uint16(b)\<close> is \<^verbatim>\<open>uint16(b[1]) | uint16(b[0])<<8\<close>.
\<close>

definition Uint16 :: "8 word \<Rightarrow> 8 word \<Rightarrow> 16 word" where
  "Uint16 b0 b1 = (ucast b1) OR (push_bit 8 (ucast b0))"

text \<open>
  What \<^verbatim>\<open>crand.Read(b[:])\<close> did: it failed, or it filled the two bytes.
\<close>

datatype crand_result = CrandErr | CrandOk "8 word" "8 word"

text \<open>
  \<^verbatim>\<open>generateSecureOTP\<close>. The second argument is the value \<^verbatim>\<open>fallbackRand.Intn(9000)\<close>
  returns if it is called; \<^verbatim>\<open>math/rand\<close> documents it to lie in the half-open interval
  from 0 to 9000. The remainder is taken on \<^verbatim>\<open>uint16\<close>, the sum on \<^verbatim>\<open>int\<close>.
\<close>

definition generateSecureOTP :: "crand_result \<Rightarrow> int \<Rightarrow> string" where
  "generateSecureOTP cr intn =
     (case cr of
        CrandErr \<Rightarrow> Itoa (1000 + intn)
      | CrandOk b0 b1 \<Rightarrow>
          (let num = Uint16 b0 b1 mod 9000 in Itoa (uint num + 1000)))"

subsection \<open>Requests, responses and the cache interface\<close>

text \<open>The values that occur in the \<^verbatim>\<open>gin.H\<close> bodies, and a response: status and body.\<close>

datatype jval = JBool bool | JStr string

record response =
  status :: nat
  body :: "string \<rightharpoonup> jval"

definition StatusOK :: nat where "StatusOK = 200"
definition StatusBadRequest :: nat where "StatusBadRequest = 400"
definition StatusNotFound :: nat where "StatusNotFound = 404"
definition StatusInternalServerError :: nat where "StatusInternalServerError = 500"

definition JSON :: "nat \<Rightarrow> (string \<times> jval) list \<Rightarrow> response" where
  "JSON code h = \<lparr>status = code, body = map_of h\<rparr>"

record OTPRequest =
  Phone :: string

record ValidateOTPRequest =
  Otp :: string
  VPhone :: string

text \<open>
  \<^verbatim>\<open>c.ShouldBindJSON(&req)\<close> is gin's: it fails with an error (its message is kept), or
  it fills the request.
\<close>

datatype 'r bound = BindErr string | Bound 'r

text \<open>
  The handlers are written against the interface \<^verbatim>\<open>backend.OTPCache\<close>. An
  implementation over a state \<open>'s\<close> gives its three methods; each may read the clock.
\<close>

record 's OTPCache =
  setOTP :: "time \<Rightarrow> 's \<Rightarrow> string \<Rightarrow> string \<Rightarrow> 's \<times> cache_error option"
  getOTP :: "time \<Rightarrow> 's \<Rightarrow> string \<Rightarrow> 's \<times> (cache_error + string)"
  deleteOTP :: "time \<Rightarrow> 's \<Rightarrow> string \<Rightarrow> 's \<times> cache_error option"

text \<open>The value \<^verbatim>\<open>init\<close> assigns to \<^verbatim>\<open>otpCache\<close>.\<close>

definition MemoryOTPCache :: "store OTPCache" where
  "MemoryOTPCache = \<lparr>setOTP = SetOTP, getOTP = GetOTP, deleteOTP = (\<lambda>now. DeleteOTP)\<rparr>"

text \<open>\<^verbatim>\<open>err.Error()\<close> of a cache error, for the log line.\<close>

fun Error :: "cache_error \<Rightarrow> string" where
  "Error ErrOTPExpired = ''OTP expired''"
| "Error ErrOTPNotFound = ''OTP not found''"
| "Error (ErrOther m) = m"

subsection \<open>/otp/validate\<close>

text \<open>
  What the handler leaves behind: the state of the cache, the response written and the
  lines logged.
\<close>

record 's handled =
  cache :: 's
  resp :: response
  logged :: "string list"

definition validateOTP_on ::
  "'s OTPCache \<Rightarrow> time \<Rightarrow> 's \<Rightarrow> ValidateOTPRequest bound \<Rightarrow> 's handled" where
  "validateOTP_on oc now s b =
     (case b of
        BindErr m \<Rightarrow>
          \<lparr>cache = s,
           resp = JSON StatusBadRequest [(''valid'', JBool False), (''error'', JStr m)],
           logged = []\<rparr>
      | Bound req \<Rightarrow>
          (case getOTP oc now s (VPhone req) of
             (s1, Inl err) \<Rightarrow>
               \<lparr>cache = s1,
                resp = (case err of
                    ErrOTPExpired \<Rightarrow>
                      JSON StatusBadRequest
                        [(''valid'', JBool False), (''error'', JStr ''OTP has expired'')]
                  | ErrOTPNotFound \<Rightarrow>
                      JSON StatusNotFound
                        [(''valid'', JBool False), (''error'', JStr ''OTP not found'')]
                  | ErrOther m \<Rightarrow>
                      JSON StatusInternalServerError
                        [(''valid'', JBool False), (''error'', JStr ''Internal server error'')]),
                logged = []\<rparr>
           | (s1, Inr storedOTP) \<Rightarrow>
               if storedOTP \<noteq> Otp req then
                 \<lparr>cache = s1,
                  resp = JSON StatusOK
                    [(''valid'', JBool False), (''error'', JStr ''OTP is incorrect'')],
                  logged = []\<rparr>
               else
                 (case deleteOTP oc now s1 (VPhone req) of
                    (s2, del_err) \<Rightarrow>
                      \<lparr>cache = s2,
                       resp = JSON StatusOK [(''valid'', JBool True)],
                       logged = (case del_err of
                           None \<Rightarrow> []
                         | Some err \<Rightarrow> [''Failed to delete OTP from cache: '' @ Error err])\<rparr>)))"

definition validateOTP :: "time \<Rightarrow> store \<Rightarrow> ValidateOTPRequest bound \<Rightarrow> store handled" where
  "validateOTP = validateOTP_on MemoryOTPCache"

subsection \<open>Validations that overlap\<close>

text \<open>
  \<^verbatim>\<open>validateOTP\<close> takes the lock of the cache twice, inside \<^verbatim>\<open>GetOTP\<close> and inside
  \<^verbatim>\<open>DeleteOTP\<close>; between the two calls the lock is free and the handler of another
  request may run. A handler that has bound its request is at its start, or has found the
  submitted code equal to the stored one and has the delete before it, or has written
  its response. \<open>validate_step\<close> is what it does under one taking of the lock.
\<close>

datatype vstate = Start ValidateOTPRequest | Matched ValidateOTPRequest | Finished response

definition validate_step :: "'s OTPCache \<Rightarrow> time \<Rightarrow> 's \<Rightarrow> vstate \<Rightarrow> 's \<times> vstate" where
  "validate_step oc now s v =
     (case v of
        Start req \<Rightarrow>
          (case getOTP oc now s (VPhone req) of
             (s1, Inl err) \<Rightarrow>
               (s1, Finished (case err of
                    ErrOTPExpired \<Rightarrow>
                      JSON StatusBadRequest
                        [(''valid'', JBool False), (''error'', JStr ''OTP has expired'')]
                  | ErrOTPNotFound \<Rightarrow>
                      JSON StatusNotFound
                        [(''valid'', JBool False), (''error'', JStr ''OTP not found'')]
                  | ErrOther m \<Rightarrow>
                      JSON StatusInternalServerError
                        [(''valid'', JBool False), (''error'', JStr ''Internal server error'')]))
           | (s1, Inr storedOTP) \<Rightarrow>
               if storedOTP \<noteq> Otp req then
                 (s1, Finished (JSON StatusOK
                    [(''valid'', JBool False), (''error'', JStr ''OTP is incorrect'')]))
               else (s1, Matched req))
      | Matched req \<Rightarrow>
          (case deleteOTP oc now s (VPhone req) of
             (s2, del_err) \<Rightarrow> (s2, Finished (JSON StatusOK [(''valid'', JBool True)])))
      | Finished r \<Rightarrow> (s, Finished r))"

text \<open>
  Handlers running against one cache: a schedule names, step by step, the handler that
  gets the lock next and the clock reading of its step.
\<close>

fun interleave :: "'s OTPCache \<Rightarrow> (time \<times> nat) list \<Rightarrow> 's \<times> vstate list \<Rightarrow> 's \<times> vstate list" where
  "interleave oc [] c = c"
| "interleave oc ((now, k) # sched) (s, vs) =
     (if k < length vs then
        (case validate_step oc now s (vs ! k) of
           (s', v') \<Rightarrow> interleave oc sched (s', vs[k := v']))
      else interleave oc sched (s, vs))"

subsection \<open>/otp\<close>

text \<open>
  The message handed to Twilio, and the calls the handler makes on its two collaborators,
  in the order it makes them.
\<close>

record CreateMessageParams =
  To :: string
  From :: string
  Body :: string

datatype call = CreateMessage CreateMessageParams | CallSetOTP string string

record 's issued =
  icache :: 's
  iresp :: response
  calls :: "call list"

text \<open>\<^verbatim>\<open>strings.HasPrefix\<close>.\<close>

fun HasPrefix :: "string \<Rightarrow> string \<Rightarrow> bool" where
  "HasPrefix s [] = True"
| "HasPrefix [] (p # ps) = False"
| "HasPrefix (c # cs) (p # ps) = (c = p \<and> HasPrefix cs ps)"

text \<open>
  The message the handler builds: the destination is the phone number with a \<open>+\<close> put
  in front when it has none, the sender \<open>sender\<close> is the environment variable \<^verbatim>\<open>TWILLIO_PHONE\<close>.
\<close>

definition messageParams :: "string \<Rightarrow> string \<Rightarrow> string \<Rightarrow> CreateMessageParams" where
  "messageParams sender phone code =
     (let formattedPhone = (if \<not> HasPrefix phone ''+'' then ''+'' @ phone else phone)
      in \<lparr>To = formattedPhone, From = sender, Body = ''Your OTP is: '' @ code\<rparr>)"

text \<open>
  \<^verbatim>\<open>generateOTP\<close>. \<open>twilio\<close> is \<^verbatim>\<open>twilioClient.Api.CreateMessage\<close>: for a message,
  \<open>None\<close> when it was accepted and the error's text when it was not. \<open>cr\<close> and \<open>intn\<close>
  are the random sources of \<open>generateSecureOTP\<close>.
\<close>

definition generateOTP_on ::
  "'s OTPCache \<Rightarrow> (CreateMessageParams \<Rightarrow> string option) \<Rightarrow> string \<Rightarrow> crand_result \<Rightarrow> int
     \<Rightarrow> time \<Rightarrow> 's \<Rightarrow> OTPRequest bound \<Rightarrow> 's issued" where
  "generateOTP_on oc twilio sender cr intn now s b =
     (case b of
        BindErr m \<Rightarrow>
          \<lparr>icache = s, iresp = JSON StatusBadRequest [(''error'', JStr m)], calls = []\<rparr>
      | Bound req \<Rightarrow>
          (let code = generateSecureOTP cr intn;
               params = messageParams sender (Phone req) code
           in case twilio params of
                Some e \<Rightarrow>
                  \<lparr>icache = s,
                   iresp = JSON StatusInternalServerError
                     [(''error'', JStr (''Failed to send OTP: '' @ e))],
                   calls = [CreateMessage params]\<rparr>
              | None \<Rightarrow>
                  (case setOTP oc now s (Phone req) code of
                     (s1, Some err) \<Rightarrow>
                       \<lparr>icache = s1,
                        iresp = JSON StatusInternalServerError
                          [(''error'', JStr ''Failed to store OTP'')],
                        calls = [CreateMessage params, CallSetOTP (Phone req) code]\<rparr>
                   | (s1, None) \<Rightarrow>
                       \<lparr>icache = s1,
                        iresp = JSON StatusOK [(''message'', JStr ''OTP sent successfully'')],
                        calls = [CreateMessage params, CallSetOTP (Phone req) code]\<rparr>)))"

definition generateOTP ::
  "(CreateMessageParams \<Rightarrow> string option) \<Rightarrow> string \<Rightarrow> crand_result \<Rightarrow> int
     \<Rightarrow> time \<Rightarrow> store \<Rightarrow> OTPRequest bound \<Rightarrow> store issued" where
  "generateOTP = generateOTP_on MemoryOTPCache"

subsection \<open>Schedules of cache calls\<close>

text \<open>
  Between two requests any number of other calls may reach the table: the three methods,
  called by the handlers of other requests, and the sweeps of \<open>cleanup\<close>. A schedule
  lists them with the clock reading of each.
\<close>

datatype cache_op = OpSet string string | OpGet string | OpDelete string | OpSweep "string list"

fun apply_op :: "time \<times> cache_op \<Rightarrow> store \<Rightarrow> store" where
  "apply_op (now, OpSet phone code) s = fst (SetOTP now s phone code)"
| "apply_op (now, OpGet phone) s = fst (GetOTP now s phone)"
| "apply_op (now, OpDelete phone) s = fst (DeleteOTP s phone)"
| "apply_op (now, OpSweep ks) s = cleanup_range now ks s"

fun run_ops :: "(time \<times> cache_op) list \<Rightarrow> store \<Rightarrow> store" where
  "run_ops [] s = s"
| "run_ops (x # xs) s = run_ops xs (apply_op x s)"

text \<open>A call issues a code for \<open>i\<close> when it is a \<open>SetOTP\<close> on \<open>i\<close>.\<close>

fun issues :: "string \<Rightarrow> cache_op \<Rightarrow> bool" where
  "issues i (OpSet phone code) = (phone = i)"
| "issues i (OpGet phone) = False"
| "issues i (OpDelete phone) = False"
| "issues i (OpSweep ks) = False"

subsection \<open>Outcomes of a validation\<close>

text \<open>
  The specification names five outcomes of the validation protocol. In its words: the
  lookup's \<open>NotFound\<close> and \<open>Expired\<close> are propagated as such, any other failure is an
  \<open>InternalError\<close>, a code that differs from the stored one is \<open>Incorrect\<close>, an exact match
  is \<open>Valid\<close>.
\<close>

datatype outcome = Valid | Incorrect | NotFound | Expired | InternalError

definition validation_outcome ::
  "'s OTPCache \<Rightarrow> time \<Rightarrow> 's \<Rightarrow> ValidateOTPRequest \<Rightarrow> outcome" where
  "validation_outcome oc now s req =
     (case snd (getOTP oc now s (VPhone req)) of
        Inl ErrOTPNotFound \<Rightarrow> NotFound
      | Inl ErrOTPExpired \<Rightarrow> Expired
      | Inl (ErrOther m) \<Rightarrow> InternalError
      | Inr stored \<Rightarrow> if Otp req = stored then Valid else Incorrect)"

subsection \<open>Reading a code back\<close>

text \<open>
  What it is for a string to consist of ASCII digits and to represent a number, and the
  two-byte inputs on which the crypto path of \<open>generateSecureOTP\<close> yields a given code.
\<close>

definition is_digit :: "char \<Rightarrow> bool" where
  "is_digit c = (c \<in> set ''0123456789'')"

definition digit_value :: "char \<Rightarrow> nat" where
  "digit_value c = of_char c - of_char (CHR ''0'')"

definition decimal_value :: "string \<Rightarrow> nat" where
  "decimal_value cs = foldl (\<lambda>acc c. 10 * acc + digit_value c) 0 cs"

definition crypto_preimages :: "int \<Rightarrow> string \<Rightarrow> (8 word \<times> 8 word) set" where
  "crypto_preimages intn code = {(b0, b1). generateSecureOTP (CrandOk b0 b1) intn = code}"

section \<open>Properties of the cache\<close>

lemma cleanup_range_eq:
  "cleanup_range now ks s k =
     (if k \<in> set ks then (case s k of None \<Rightarrow> None
         | Some e \<Rightarrow> if After now (expiresAt e) then None else Some e)
      else s k)"
proof (induction ks arbitrary: s)
  case Nil
  show ?case by simp
next
  case (Cons a ks)
  show ?case
    by (cases "s a") (auto simp: Cons.IH split: option.splits)
qed

lemma cleanup_range_absent: "s k = None \<Longrightarrow> cleanup_range now ks s k = None"
  by (simp add: cleanup_range_eq)

lemma GetOTP_absent: "s k = None \<Longrightarrow> fst (GetOTP now s phone) k = None"
  by (simp add: GetOTP_def split: option.splits)

lemma apply_op_absent:
  assumes "s i = None" and "\<not> issues i (snd x)"
  shows "apply_op x s i = None"
proof (cases x)
  case (Pair now c)
  with assms show ?thesis
    by (cases c) (simp_all add: SetOTP_def DeleteOTP_def GetOTP_absent cleanup_range_absent)
qed

lemma run_ops_absent:
  "s i = None \<Longrightarrow> \<forall>x \<in> set xs. \<not> issues i (snd x) \<Longrightarrow> run_ops xs s i = None"
proof (induction xs arbitrary: s)
  case Nil
  then show ?case by simp
next
  case (Cons x xs)
  from Cons.prems have "apply_op x s i = None"
    by (simp add: apply_op_absent)
  with Cons show ?case by simp
qed

text \<open>
  C7. \<open>SetOTP\<close> returns \<^verbatim>\<open>nil\<close> whatever the table and the arguments. A \<open>GetOTP\<close> of the
  same identifier at a time not after the expiry returns the code just set and leaves
  the table as it is. Setting \<open>c1\<close> and then \<open>c2\<close> leaves the table that setting \<open>c2\<close>
  alone leaves, so the lookup returns \<open>c2\<close>: the second call replaces the entry.
\<close>

theorem SetOTP_then_GetOTP:
  assumes "now' \<le> now + otpExpiration" and "now2 \<le> now1 + otpExpiration"
  shows "snd (SetOTP now s i c) = None
       \<and> GetOTP now' (fst (SetOTP now s i c)) i = (fst (SetOTP now s i c), Inr c)
       \<and> fst (SetOTP now1 (fst (SetOTP now s i c1)) i c2) = fst (SetOTP now1 s i c2)
       \<and> snd (GetOTP now2 (fst (SetOTP now1 (fst (SetOTP now s i c1)) i c2)) i) = Inr c2"
  using assms by (simp add: SetOTP_def GetOTP_def After_def)

theorem SetOTP_then_GetOTP_witness:
  "(1::int) \<le> 0 + otpExpiration \<and> (3::int) \<le> 2 + otpExpiration
   \<and> snd (SetOTP 0 NewMemoryOTPCache ''+15551234567'' ''4821'') = None
   \<and> snd (GetOTP 1 (fst (SetOTP 0 NewMemoryOTPCache ''+15551234567'' ''4821''))
        ''+15551234567'') = Inr ''4821''
   \<and> snd (GetOTP 3 (fst (SetOTP 2 (fst (SetOTP 0 NewMemoryOTPCache ''+15551234567'' ''4821''))
        ''+15551234567'' ''7302'')) ''+15551234567'') = Inr ''7302''"
proof -
  have h1: "(1::int) \<le> 0 + otpExpiration" and h2: "(3::int) \<le> 2 + otpExpiration"
    by (simp_all add: otpExpiration_def)
  from SetOTP_then_GetOTP [OF h1 h2, where s = NewMemoryOTPCache and i = "''+15551234567''"
      and c = "''4821''" and ?c1.0 = "''4821''" and ?c2.0 = "''7302''"]
  show ?thesis using h1 h2
    by (simp add: SetOTP_def GetOTP_def After_def NewMemoryOTPCache_def)
qed

text \<open>
  C1, as the code has it. The expiry test is \<^verbatim>\<open>time.Now().After(entry.expiresAt)\<close>, a
  strict comparison. A \<open>GetOTP\<close> of a present entry at a time strictly after its
  \<open>expiresAt\<close> deletes the entry and fails with \<open>ErrOTPExpired\<close>, and a repeated \<open>GetOTP\<close>
  at any time fails with \<open>ErrOTPNotFound\<close>. At any time up to and including \<open>expiresAt\<close>
  itself the stored code is returned and the table is left as it is.
\<close>

theorem GetOTP_expired:
  assumes "s i = Some e"
  shows "(expiresAt e < now \<longrightarrow>
            GetOTP now s i = (s(i := None), Inl ErrOTPExpired)
          \<and> GetOTP now' (fst (GetOTP now s i)) i = (s(i := None), Inl ErrOTPNotFound))
       \<and> (now \<le> expiresAt e \<longrightarrow> GetOTP now s i = (s, Inr (otp e)))"
  using assms by (simp add: GetOTP_def After_def)

theorem GetOTP_expired_witness:
  "fst (SetOTP 0 NewMemoryOTPCache ''+1555'' ''1111'') ''+1555''
     = Some \<lparr>otp = ''1111'', expiresAt = otpExpiration\<rparr>
   \<and> otpExpiration < otpExpiration + 1
   \<and> snd (GetOTP (otpExpiration + 1) (fst (SetOTP 0 NewMemoryOTPCache ''+1555'' ''1111''))
        ''+1555'') = Inl ErrOTPExpired
   \<and> fst (GetOTP (otpExpiration + 1) (fst (SetOTP 0 NewMemoryOTPCache ''+1555'' ''1111''))
        ''+1555'') ''+1555'' = None
   \<and> snd (GetOTP (otpExpiration + 1)
        (fst (GetOTP (otpExpiration + 1) (fst (SetOTP 0 NewMemoryOTPCache ''+1555'' ''1111''))
           ''+1555'')) ''+1555'') = Inl ErrOTPNotFound"
proof -
  have h: "fst (SetOTP 0 NewMemoryOTPCache ''+1555'' ''1111'') ''+1555''
     = Some \<lparr>otp = ''1111'', expiresAt = otpExpiration\<rparr>"
    by (simp add: SetOTP_def)
  from GetOTP_expired [where s = "fst (SetOTP 0 NewMemoryOTPCache ''+1555'' ''1111'')"
      and i = "''+1555''" and e = "\<lparr>otp = ''1111'', expiresAt = otpExpiration\<rparr>"
      and now = "otpExpiration + 1" and now' = "otpExpiration + 1", OF h]
  show ?thesis using h
    by (simp add: SetOTP_def GetOTP_def After_def NewMemoryOTPCache_def)
qed

text \<open>
  C1, as the claim states it, fails at the boundary: a code set at time 0 expires at
  \<open>otpExpiration\<close>, and a \<open>GetOTP\<close> at exactly that time returns the code.
\<close>

theorem GetOTP_at_expiry_counterexample:
  "expiresAt (the (fst (SetOTP 0 NewMemoryOTPCache ''+1555'' ''1111'') ''+1555'')) \<le> otpExpiration
   \<and> snd (GetOTP otpExpiration (fst (SetOTP 0 NewMemoryOTPCache ''+1555'' ''1111'')) ''+1555'')
       = Inr ''1111''
   \<and> snd (GetOTP otpExpiration (fst (SetOTP 0 NewMemoryOTPCache ''+1555'' ''1111'')) ''+1555'')
       \<noteq> Inl ErrOTPExpired
   \<and> fst (GetOTP otpExpiration (fst (SetOTP 0 NewMemoryOTPCache ''+1555'' ''1111'')) ''+1555'')
       ''+1555'' \<noteq> None"
  by (simp add: SetOTP_def GetOTP_def After_def NewMemoryOTPCache_def)

text \<open>
  C9. One pass of the sweep, whatever the order in which \<^verbatim>\<open>range\<close> yields the keys of the
  table: an entry is removed when the time of the sweep is after its \<open>expiresAt\<close>, and is
  kept as it is, code and expiry, when it is not. No lookup takes part in it.
\<close>

theorem cleanup_one_pass:
  assumes "set ks = dom s"
  shows "cleanup [(now, ks)] s =
     (\<lambda>k. case s k of None \<Rightarrow> None
         | Some e \<Rightarrow> if After now (expiresAt e) then None else Some e)"
proof
  fix k
  show "cleanup [(now, ks)] s k =
     (case s k of None \<Rightarrow> None | Some e \<Rightarrow> if After now (expiresAt e) then None else Some e)"
    using assms by (auto simp: cleanup_range_eq split: option.splits)
qed

theorem cleanup_one_pass_witness:
  "set [''b'', ''a''] = dom [''a'' \<mapsto> \<lparr>otp = ''1111'', expiresAt = 5\<rparr>,
                             ''b'' \<mapsto> \<lparr>otp = ''2222'', expiresAt = 9\<rparr>]
   \<and> cleanup [(7, [''b'', ''a''])] [''a'' \<mapsto> \<lparr>otp = ''1111'', expiresAt = 5\<rparr>,
                                       ''b'' \<mapsto> \<lparr>otp = ''2222'', expiresAt = 9\<rparr>] ''a'' = None
   \<and> cleanup [(7, [''b'', ''a''])] [''a'' \<mapsto> \<lparr>otp = ''1111'', expiresAt = 5\<rparr>,
                                       ''b'' \<mapsto> \<lparr>otp = ''2222'', expiresAt = 9\<rparr>] ''b''
       = Some \<lparr>otp = ''2222'', expiresAt = 9\<rparr>"
proof -
  have h: "set [''b'', ''a''] = dom [''a'' \<mapsto> \<lparr>otp = ''1111'', expiresAt = 5\<rparr>,
                             ''b'' \<mapsto> \<lparr>otp = ''2222'', expiresAt = 9\<rparr>]"
    by auto
  from cleanup_one_pass [where ks = "[''b'', ''a'']" and now = 7
      and s = "[''a'' \<mapsto> \<lparr>otp = ''1111'', expiresAt = 5\<rparr>,
                ''b'' \<mapsto> \<lparr>otp = ''2222'', expiresAt = 9\<rparr>]", OF h]
  show ?thesis using h by (simp add: After_def)
qed

section \<open>Properties of the handlers\<close>

lemmas run_defs =
  validateOTP_def validateOTP_on_def MemoryOTPCache_def NewMemoryOTPCache_def
  SetOTP_def GetOTP_def DeleteOTP_def After_def otpExpiration_def

lemma validateOTP_absent:
  "s i = None \<Longrightarrow> validateOTP now s (Bound \<lparr>Otp = c, VPhone = i\<rparr>) =
     \<lparr>cache = s,
      resp = JSON StatusNotFound [(''valid'', JBool False), (''error'', JStr ''OTP not found'')],
      logged = []\<rparr>"
  by (simp add: validateOTP_def validateOTP_on_def MemoryOTPCache_def GetOTP_def)

lemma validateOTP_match:
  "s i = Some e \<Longrightarrow> \<not> After now (expiresAt e) \<Longrightarrow>
   validateOTP now s (Bound \<lparr>Otp = otp e, VPhone = i\<rparr>) =
     \<lparr>cache = s(i := None), resp = JSON StatusOK [(''valid'', JBool True)], logged = []\<rparr>"
  by (simp add: validateOTP_def validateOTP_on_def MemoryOTPCache_def GetOTP_def DeleteOTP_def)

lemma validateOTP_mismatch:
  "s i = Some e \<Longrightarrow> \<not> After now (expiresAt e) \<Longrightarrow> c \<noteq> otp e \<Longrightarrow>
   validateOTP now s (Bound \<lparr>Otp = c, VPhone = i\<rparr>) =
     \<lparr>cache = s,
      resp = JSON StatusOK [(''valid'', JBool False), (''error'', JStr ''OTP is incorrect'')],
      logged = []\<rparr>"
  by (auto simp add: validateOTP_def validateOTP_on_def MemoryOTPCache_def GetOTP_def)

text \<open>
  Handler runs that do not overlap. With the stored code of a live entry the handler
  answers 200 \<open>valid: true\<close> and leaves the table without the entry. The same request
  again, at any time, is answered 404 \<open>OTP not found\<close>; so is any validation for that
  identifier after any schedule of whole cache calls in which no \<open>SetOTP\<close> for the
  identifier occurs.
\<close>

lemma validateOTP_then_not_found:
  assumes "s i = Some e" and "\<not> After now (expiresAt e)"
  shows "validateOTP now s (Bound \<lparr>Otp = otp e, VPhone = i\<rparr>) =
           \<lparr>cache = s(i := None), resp = JSON StatusOK [(''valid'', JBool True)], logged = []\<rparr>
       \<and> validateOTP now' (s(i := None)) (Bound \<lparr>Otp = otp e, VPhone = i\<rparr>) =
           \<lparr>cache = s(i := None),
            resp = JSON StatusNotFound
              [(''valid'', JBool False), (''error'', JStr ''OTP not found'')],
            logged = []\<rparr>
       \<and> ((\<forall>x \<in> set xs. \<not> issues i (snd x)) \<longrightarrow>
            resp (validateOTP now'' (run_ops xs (s(i := None))) (Bound \<lparr>Otp = c, VPhone = i\<rparr>)) =
              JSON StatusNotFound [(''valid'', JBool False), (''error'', JStr ''OTP not found'')])"
proof (intro conjI impI)
  show "validateOTP now s (Bound \<lparr>Otp = otp e, VPhone = i\<rparr>) =
           \<lparr>cache = s(i := None), resp = JSON StatusOK [(''valid'', JBool True)], logged = []\<rparr>"
    using assms by (rule validateOTP_match)
  show "validateOTP now' (s(i := None)) (Bound \<lparr>Otp = otp e, VPhone = i\<rparr>) =
           \<lparr>cache = s(i := None),
            resp = JSON StatusNotFound
              [(''valid'', JBool False), (''error'', JStr ''OTP not found'')],
            logged = []\<rparr>"
    by (simp add: validateOTP_absent)
next
  assume "\<forall>x \<in> set xs. \<not> issues i (snd x)"
  then have "run_ops xs (s(i := None)) i = None"
    by (simp add: run_ops_absent)
  then show "resp (validateOTP now'' (run_ops xs (s(i := None))) (Bound \<lparr>Otp = c, VPhone = i\<rparr>)) =
      JSON StatusNotFound [(''valid'', JBool False), (''error'', JStr ''OTP not found'')]"
    by (simp add: validateOTP_absent)
qed

text \<open>
  A handler that runs its two steps with nothing in between is \<open>validateOTP_on\<close>.
\<close>

lemma interleave_alone:
  "interleave oc [(now, 0), (now, 0)] (s, [Start req]) =
     (cache (validateOTP_on oc now s (Bound req)),
      [Finished (resp (validateOTP_on oc now s (Bound req)))])"
  by (auto simp: validate_step_def validateOTP_on_def
      split: prod.splits sum.splits cache_error.splits)

lemma validate_race:
  assumes "s i = Some e" and "\<not> After now1 (expiresAt e)" and "\<not> After now2 (expiresAt e)"
  shows "interleave MemoryOTPCache [(now1, 0), (now2, 1), (now3, 0), (now4, 1)]
           (s, [Start \<lparr>Otp = otp e, VPhone = i\<rparr>, Start \<lparr>Otp = otp e, VPhone = i\<rparr>])
         = (s(i := None),
            [Finished (JSON StatusOK [(''valid'', JBool True)]),
             Finished (JSON StatusOK [(''valid'', JBool True)])])"
  using assms
  by (simp add: validate_step_def MemoryOTPCache_def GetOTP_def DeleteOTP_def)

text \<open>
  C3. The handler deletes the entry on a match, to enforce one-time use, but the lookup
  and the delete are two takings of the lock. Two requests with the stored code of a live
  entry, scheduled so that both lookups come before either delete, are both answered 200
  \<open>valid: true\<close>, and no \<open>SetOTP\<close> lies between them: the code is accepted twice. Scheduled
  one after the other, the first is answered \<open>valid: true\<close> and the second 404
  \<open>OTP not found\<close>.
\<close>

theorem validateOTP_valid_twice:
  "snd (interleave MemoryOTPCache [(1, 0), (2, 1), (3, 0), (4, 1)]
     (fst (SetOTP 0 NewMemoryOTPCache ''+15551234567'' ''4821''),
      [Start \<lparr>Otp = ''4821'', VPhone = ''+15551234567''\<rparr>,
       Start \<lparr>Otp = ''4821'', VPhone = ''+15551234567''\<rparr>]))
   = [Finished (JSON StatusOK [(''valid'', JBool True)]),
      Finished (JSON StatusOK [(''valid'', JBool True)])]
  \<and> snd (interleave MemoryOTPCache [(1, 0), (2, 0), (3, 1), (4, 1)]
     (fst (SetOTP 0 NewMemoryOTPCache ''+15551234567'' ''4821''),
      [Start \<lparr>Otp = ''4821'', VPhone = ''+15551234567''\<rparr>,
       Start \<lparr>Otp = ''4821'', VPhone = ''+15551234567''\<rparr>]))
   = [Finished (JSON StatusOK [(''valid'', JBool True)]),
      Finished (JSON StatusNotFound
        [(''valid'', JBool False), (''error'', JStr ''OTP not found'')])]"
  by (simp add: validate_step_def run_defs)

text \<open>
  C4. With a code that is not the stored code of a live entry the handler answers 200
  \<open>valid: false\<close>, \<open>OTP is incorrect\<close>, and leaves the table as it was; a validation with
  the stored code, at a time at which the entry is still live, is then answered
  \<open>valid: true\<close>.
\<close>

theorem validateOTP_incorrect_keeps_entry:
  assumes "s i = Some e" and "\<not> After now (expiresAt e)" and "c \<noteq> otp e"
    and "\<not> After now' (expiresAt e)"
  shows "validateOTP now s (Bound \<lparr>Otp = c, VPhone = i\<rparr>) =
           \<lparr>cache = s,
            resp = JSON StatusOK [(''valid'', JBool False), (''error'', JStr ''OTP is incorrect'')],
            logged = []\<rparr>
       \<and> resp (validateOTP now' (cache (validateOTP now s (Bound \<lparr>Otp = c, VPhone = i\<rparr>)))
              (Bound \<lparr>Otp = otp e, VPhone = i\<rparr>)) = JSON StatusOK [(''valid'', JBool True)]"
  using assms by (simp add: validateOTP_mismatch validateOTP_match)

theorem validateOTP_incorrect_keeps_entry_witness:
  "fst (SetOTP 0 NewMemoryOTPCache ''+1555'' ''1111'') ''+1555''
     = Some \<lparr>otp = ''1111'', expiresAt = otpExpiration\<rparr>
   \<and> \<not> After 1 (expiresAt \<lparr>otp = ''1111'', expiresAt = otpExpiration\<rparr>)
   \<and> ''1112'' \<noteq> otp \<lparr>otp = ''1111'', expiresAt = otpExpiration\<rparr>
   \<and> \<not> After 2 (expiresAt \<lparr>otp = ''1111'', expiresAt = otpExpiration\<rparr>)
   \<and> resp (validateOTP 1 (fst (SetOTP 0 NewMemoryOTPCache ''+1555'' ''1111''))
        (Bound \<lparr>Otp = ''1112'', VPhone = ''+1555''\<rparr>))
       = JSON StatusOK [(''valid'', JBool False), (''error'', JStr ''OTP is incorrect'')]
   \<and> cache (validateOTP 1 (fst (SetOTP 0 NewMemoryOTPCache ''+1555'' ''1111''))
        (Bound \<lparr>Otp = ''1112'', VPhone = ''+1555''\<rparr>))
       = fst (SetOTP 0 NewMemoryOTPCache ''+1555'' ''1111'')
   \<and> resp (validateOTP 2
        (cache (validateOTP 1 (fst (SetOTP 0 NewMemoryOTPCache ''+1555'' ''1111''))
           (Bound \<lparr>Otp = ''1112'', VPhone = ''+1555''\<rparr>)))
        (Bound \<lparr>Otp = ''1111'', VPhone = ''+1555''\<rparr>))
       = JSON StatusOK [(''valid'', JBool True)]"
proof -
  have h1: "fst (SetOTP 0 NewMemoryOTPCache ''+1555'' ''1111'') ''+1555''
     = Some \<lparr>otp = ''1111'', expiresAt = otpExpiration\<rparr>"
    by (simp add: SetOTP_def)
  have h2: "\<not> After 1 (expiresAt \<lparr>otp = ''1111'', expiresAt = otpExpiration\<rparr>)"
    and h4: "\<not> After 2 (expiresAt \<lparr>otp = ''1111'', expiresAt = otpExpiration\<rparr>)"
    by (simp_all add: After_def otpExpiration_def)
  have h3: "''1112'' \<noteq> otp \<lparr>otp = ''1111'', expiresAt = otpExpiration\<rparr>"
    by simp
  from validateOTP_incorrect_keeps_entry [where s = "fst (SetOTP 0 NewMemoryOTPCache ''+1555'' ''1111'')"
      and i = "''+1555''" and e = "\<lparr>otp = ''1111'', expiresAt = otpExpiration\<rparr>"
      and now = 1 and now' = 2 and c = "''1112''", OF h1 h2 h3 h4]
  show ?thesis using h1 h2 h3 h4 by (simp add: run_defs)
qed

text \<open>
  C10. \<open>SetOTP\<close> and \<open>DeleteOTP\<close> return \<^verbatim>\<open>nil\<close> for every table and every argument. The
  only line \<open>validateOTP\<close> logs is the one of its delete-failure branch, and over the
  in-memory cache it logs nothing, whatever the request; with the stored code of a live
  entry it answers 200 \<open>valid: true\<close>.
\<close>

theorem delete_failure_unreachable:
  "snd (SetOTP now s phone code) = None \<and> snd (DeleteOTP s phone) = None
   \<and> logged (validateOTP now s b) = []
   \<and> (s i = Some e \<and> \<not> After now (expiresAt e) \<longrightarrow>
        resp (validateOTP now s (Bound \<lparr>Otp = otp e, VPhone = i\<rparr>))
          = JSON StatusOK [(''valid'', JBool True)])"
proof (intro conjI impI)
  show "snd (SetOTP now s phone code) = None"
    by (simp add: SetOTP_def)
  show "snd (DeleteOTP s phone) = None"
    by (simp add: DeleteOTP_def)
  show "logged (validateOTP now s b) = []"
    by (cases b)
      (simp_all add: validateOTP_def validateOTP_on_def MemoryOTPCache_def GetOTP_def
        DeleteOTP_def split: option.splits)
next
  assume "s i = Some e \<and> \<not> After now (expiresAt e)"
  then show "resp (validateOTP now s (Bound \<lparr>Otp = otp e, VPhone = i\<rparr>))
      = JSON StatusOK [(''valid'', JBool True)]"
    by (simp add: validateOTP_match)
qed

theorem delete_failure_unreachable_witness:
  "fst (SetOTP 0 NewMemoryOTPCache ''+1555'' ''1111'') ''+1555''
     = Some \<lparr>otp = ''1111'', expiresAt = otpExpiration\<rparr>
   \<and> \<not> After 1 (expiresAt \<lparr>otp = ''1111'', expiresAt = otpExpiration\<rparr>)
   \<and> snd (DeleteOTP (fst (SetOTP 0 NewMemoryOTPCache ''+1555'' ''1111'')) ''+1555'') = None
   \<and> logged (validateOTP 1 (fst (SetOTP 0 NewMemoryOTPCache ''+1555'' ''1111''))
        (Bound \<lparr>Otp = ''1111'', VPhone = ''+1555''\<rparr>)) = []
   \<and> resp (validateOTP 1 (fst (SetOTP 0 NewMemoryOTPCache ''+1555'' ''1111''))
        (Bound \<lparr>Otp = ''1111'', VPhone = ''+1555''\<rparr>)) = JSON StatusOK [(''valid'', JBool True)]"
proof -
  have h1: "fst (SetOTP 0 NewMemoryOTPCache ''+1555'' ''1111'') ''+1555''
     = Some \<lparr>otp = ''1111'', expiresAt = otpExpiration\<rparr>"
    by (simp add: SetOTP_def)
  have h2: "\<not> After 1 (expiresAt \<lparr>otp = ''1111'', expiresAt = otpExpiration\<rparr>)"
    by (simp add: After_def otpExpiration_def)
  from delete_failure_unreachable [where s = "fst (SetOTP 0 NewMemoryOTPCache ''+1555'' ''1111'')"
      and i = "''+1555''" and e = "\<lparr>otp = ''1111'', expiresAt = otpExpiration\<rparr>"
      and now = 1 and phone = "''+1555''"
      and b = "Bound \<lparr>Otp = ''1111'', VPhone = ''+1555''\<rparr>"]
  show ?thesis using h1 h2 by (simp add: run_defs)
qed

lemma validateOTP_on_resp:
  "resp (validateOTP_on oc now s (Bound req)) =
     (case validation_outcome oc now s req of
        Valid \<Rightarrow> JSON StatusOK [(''valid'', JBool True)]
      | Incorrect \<Rightarrow>
          JSON StatusOK [(''valid'', JBool False), (''error'', JStr ''OTP is incorrect'')]
      | NotFound \<Rightarrow>
          JSON StatusNotFound [(''valid'', JBool False), (''error'', JStr ''OTP not found'')]
      | Expired \<Rightarrow>
          JSON StatusBadRequest [(''valid'', JBool False), (''error'', JStr ''OTP has expired'')]
      | InternalError \<Rightarrow>
          JSON StatusInternalServerError
            [(''valid'', JBool False), (''error'', JStr ''Internal server error'')])"
  by (auto simp: validateOTP_on_def validation_outcome_def
      split: prod.splits sum.splits cache_error.splits)

lemma response_neq:
  "status r \<noteq> status r' \<or> body r ''valid'' \<noteq> body r' ''valid'' \<Longrightarrow> r \<noteq> r'"
  by auto

text \<open>
  C8. Two bound requests, against any implementations of the cache interface, whose
  validations have different outcomes are answered with different responses: the
  responses differ in the status, or in the \<open>valid\<close> field of the body. (\<open>Valid\<close> and
  \<open>Incorrect\<close> share the status 200 and differ in \<open>valid\<close>; the other three have the
  statuses 404, 400 and 500.)
\<close>

theorem validateOTP_outcomes_distinct:
  assumes "validation_outcome oc now s req \<noteq> validation_outcome oc' now' s' req'"
  shows "resp (validateOTP_on oc now s (Bound req))
           \<noteq> resp (validateOTP_on oc' now' s' (Bound req'))"
proof (rule response_neq)
  show "status (resp (validateOTP_on oc now s (Bound req)))
          \<noteq> status (resp (validateOTP_on oc' now' s' (Bound req')))
      \<or> body (resp (validateOTP_on oc now s (Bound req))) ''valid''
          \<noteq> body (resp (validateOTP_on oc' now' s' (Bound req'))) ''valid''"
    using assms unfolding validateOTP_on_resp
    by (cases "validation_outcome oc now s req"; cases "validation_outcome oc' now' s' req'")
      (simp_all add: JSON_def StatusOK_def StatusBadRequest_def StatusNotFound_def
        StatusInternalServerError_def)
qed

theorem validateOTP_outcomes_distinct_witness:
  "validation_outcome MemoryOTPCache 1 (fst (SetOTP 0 NewMemoryOTPCache ''+1555'' ''1111''))
      \<lparr>Otp = ''1111'', VPhone = ''+1555''\<rparr>
   \<noteq> validation_outcome MemoryOTPCache 1 (fst (SetOTP 0 NewMemoryOTPCache ''+1555'' ''1111''))
      \<lparr>Otp = ''2222'', VPhone = ''+1555''\<rparr>
   \<and> resp (validateOTP 1 (fst (SetOTP 0 NewMemoryOTPCache ''+1555'' ''1111''))
        (Bound \<lparr>Otp = ''1111'', VPhone = ''+1555''\<rparr>))
   \<noteq> resp (validateOTP 1 (fst (SetOTP 0 NewMemoryOTPCache ''+1555'' ''1111''))
        (Bound \<lparr>Otp = ''2222'', VPhone = ''+1555''\<rparr>))"
proof -
  have h: "validation_outcome MemoryOTPCache 1
      (fst (SetOTP 0 NewMemoryOTPCache ''+1555'' ''1111''))
      \<lparr>Otp = ''1111'', VPhone = ''+1555''\<rparr>
   \<noteq> validation_outcome MemoryOTPCache 1 (fst (SetOTP 0 NewMemoryOTPCache ''+1555'' ''1111''))
      \<lparr>Otp = ''2222'', VPhone = ''+1555''\<rparr>"
    by (simp add: validation_outcome_def MemoryOTPCache_def GetOTP_def SetOTP_def After_def
        otpExpiration_def)
  from validateOTP_outcomes_distinct [OF h] show ?thesis
    using h by (simp add: validateOTP_def)
qed

text \<open>
  C5. The handler hands the message to Twilio first. When Twilio refuses it, the handler
  answers 500 and returns: the cache is the one it was given and \<open>SetOTP\<close> is not among
  its calls. When Twilio accepts it, \<open>SetOTP\<close> is the second call, after the send.
\<close>

theorem generateOTP_send_before_store:
  "(twilio (messageParams sender (Phone req) (generateSecureOTP cr intn)) = Some e \<longrightarrow>
      generateOTP_on oc twilio sender cr intn now s (Bound req) =
        \<lparr>icache = s,
         iresp = JSON StatusInternalServerError
           [(''error'', JStr (''Failed to send OTP: '' @ e))],
         calls = [CreateMessage (messageParams sender (Phone req) (generateSecureOTP cr intn))]\<rparr>)
   \<and> (twilio (messageParams sender (Phone req) (generateSecureOTP cr intn)) = None \<longrightarrow>
      calls (generateOTP_on oc twilio sender cr intn now s (Bound req)) =
        [CreateMessage (messageParams sender (Phone req) (generateSecureOTP cr intn)),
         CallSetOTP (Phone req) (generateSecureOTP cr intn)])"
  by (auto simp: generateOTP_on_def Let_def split: prod.splits option.splits)

theorem generateOTP_send_before_store_witness:
  "icache (generateOTP (\<lambda>p. Some ''unreachable'') ''+1999'' (CrandOk 0 0) 0 1
       (fst (SetOTP 0 NewMemoryOTPCache ''+1555'' ''1111'')) (Bound \<lparr>Phone = ''1555''\<rparr>))
     = fst (SetOTP 0 NewMemoryOTPCache ''+1555'' ''1111'')
   \<and> calls (generateOTP (\<lambda>p. Some ''unreachable'') ''+1999'' (CrandOk 0 0) 0 1
       (fst (SetOTP 0 NewMemoryOTPCache ''+1555'' ''1111'')) (Bound \<lparr>Phone = ''1555''\<rparr>))
     = [CreateMessage \<lparr>To = ''+1555'', From = ''+1999'', Body = ''Your OTP is: 1000''\<rparr>]
   \<and> calls (generateOTP (\<lambda>p. None) ''+1999'' (CrandOk 0 0) 0 1
       (fst (SetOTP 0 NewMemoryOTPCache ''+1555'' ''1111'')) (Bound \<lparr>Phone = ''1555''\<rparr>))
     = [CreateMessage \<lparr>To = ''+1555'', From = ''+1999'', Body = ''Your OTP is: 1000''\<rparr>,
        CallSetOTP ''1555'' ''1000'']"
proof -
  have g: "generateSecureOTP (CrandOk 0 0) 0 = ''1000''"
    by (simp add: generateSecureOTP_def Uint16_def Itoa_def digits10.simps digit_char_def)
  from
    generateOTP_send_before_store [where twilio = "\<lambda>p. Some ''unreachable''" and sender = "''+1999''"
      and cr = "CrandOk 0 0" and intn = 0 and now = 1 and oc = MemoryOTPCache
      and s = "fst (SetOTP 0 NewMemoryOTPCache ''+1555'' ''1111'')"
      and req = "\<lparr>Phone = ''1555''\<rparr>" and e = "''unreachable''"]
    generateOTP_send_before_store [where twilio = "\<lambda>p. None" and sender = "''+1999''"
      and cr = "CrandOk 0 0" and intn = 0 and now = 1 and oc = MemoryOTPCache
      and s = "fst (SetOTP 0 NewMemoryOTPCache ''+1555'' ''1111'')"
      and req = "\<lparr>Phone = ''1555''\<rparr>"]
  show ?thesis
    unfolding generateOTP_def g by (simp add: messageParams_def)
qed

section \<open>Properties of the code generator\<close>

lemma digit_char_is_digit: "d < 10 \<Longrightarrow> is_digit (digit_char d)"
  unfolding is_digit_def digit_char_def
  by (simp add: nth_Cons' )

lemma digit_value_digit_char: "d < 10 \<Longrightarrow> digit_value (digit_char d) = d"
proof -
  assume "d < 10"
  then have "d \<in> {0,1,2,3,4,5,6,7,8,9}" by auto
  then show ?thesis
    by (auto simp: digit_value_def digit_char_def)
qed

lemma decimal_value_snoc: "decimal_value (cs @ [c]) = 10 * decimal_value cs + digit_value c"
  by (simp add: decimal_value_def)

lemma decimal_value_digits10: "decimal_value (digits10 n) = n"
proof (induction n rule: digits10.induct)
  case (1 n)
  show ?case
  proof (cases "n < 10")
    case True
    then show ?thesis
      by (simp add: digits10.simps [of n] decimal_value_def digit_value_digit_char)
  next
    case False
    with 1 have "decimal_value (digits10 (n div 10)) = n div 10" by simp
    with False show ?thesis
      by (simp add: digits10.simps [of n] decimal_value_snoc digit_value_digit_char)
  qed
qed

lemma digits10_digits: "\<forall>c \<in> set (digits10 n). is_digit c"
proof (induction n rule: digits10.induct)
  case (1 n)
  show ?case
  proof (cases "n < 10")
    case True
    then show ?thesis
      by (simp add: digits10.simps [of n] digit_char_is_digit)
  next
    case False
    with 1 have "\<forall>c \<in> set (digits10 (n div 10)). is_digit c" by simp
    with False show ?thesis
      by (simp add: digits10.simps [of n] digit_char_is_digit)
  qed
qed

lemma digits10_length4:
  assumes "1000 \<le> n" and "n \<le> 9999"
  shows "length (digits10 n) = 4"
proof -
  have a: "\<not> n < 10" "\<not> n div 10 < 10" "\<not> n div 10 div 10 < 10" "n div 10 div 10 div 10 < 10"
    using assms by auto
  show ?thesis
    by (simp add: digits10.simps [of n] digits10.simps [of "n div 10"]
        digits10.simps [of "n div 10 div 10"] digits10.simps [of "n div 10 div 10 div 10"] a)
qed


lemma Uint16_hi: "ucast (drop_bit 8 (Uint16 b0 b1)) = b0"
  unfolding Uint16_def
  by (rule bit_word_eqI) (auto simp: bit_simps dest: bit_imp_le_length)

lemma Uint16_lo: "ucast (Uint16 b0 b1) = b1"
  unfolding Uint16_def
  by (rule bit_word_eqI) (auto simp: bit_simps)

lemma Uint16_split: "Uint16 (ucast (drop_bit 8 w)) (ucast w) = w"
  unfolding Uint16_def
  by (rule bit_word_eqI) (auto simp: bit_simps)

lemma Uint16_inj: "Uint16 a0 a1 = Uint16 b0 b1 \<Longrightarrow> a0 = b0 \<and> a1 = b1"
  using Uint16_hi [of a0 a1] Uint16_hi [of b0 b1] Uint16_lo [of a0 a1] Uint16_lo [of b0 b1]
  by simp

lemma residues_card:
  assumes "v < 9000"
  shows "card {n::nat. n < 65536 \<and> n mod 9000 = v} = (if v < 2536 then 8 else 7)"
proof -
  let ?m = "if v < 2536 then 8 else 7 :: nat"
  have "{n::nat. n < 65536 \<and> n mod 9000 = v} = (\<lambda>k. v + 9000 * k) ` {..<?m}"
  proof (rule set_eqI, rule iffI)
    fix n assume "n \<in> {n::nat. n < 65536 \<and> n mod 9000 = v}"
    then have n: "n < 65536" "n mod 9000 = v" by auto
    obtain q where q: "q = n div 9000" by simp
    have d: "n = v + 9000 * q" using n(2) q mod_mult_div_eq [of n 9000] by simp
    have "q < ?m" using d n(1) assms by (cases "v < 2536") simp_all
    with d show "n \<in> (\<lambda>k. v + 9000 * k) ` {..<?m}" by blast
  next
    fix n assume "n \<in> (\<lambda>k. v + 9000 * k) ` {..<?m}"
    then obtain k where "k < ?m" "n = v + 9000 * k" by auto
    with assms show "n \<in> {n::nat. n < 65536 \<and> n mod 9000 = v}"
      by (auto split: if_splits)
  qed
  moreover have "inj_on (\<lambda>k. v + 9000 * k) {..<?m}"
    by (rule inj_onI) simp
  ultimately show ?thesis
    by (simp add: card_image)
qed

lemma word16_card:
  "card {w :: 16 word. P (unat w)} = card {n::nat. n < 65536 \<and> P n}"
proof -
  have "unat ` {w :: 16 word. P (unat w)} = {n::nat. n < 65536 \<and> P n}"
  proof (rule set_eqI, rule iffI)
    fix n assume "n \<in> unat ` {w :: 16 word. P (unat w)}"
    then obtain w :: "16 word" where "n = unat w" "P (unat w)" by auto
    moreover have "unat w < 65536" using unsigned_less [of w, where 'a = nat] by simp
    ultimately show "n \<in> {n::nat. n < 65536 \<and> P n}" by simp
  next
    fix n assume "n \<in> {n::nat. n < 65536 \<and> P n}"
    then have n: "n < 65536" "P n" by auto
    then have "unat (of_nat n :: 16 word) = n"
      by (simp add: unat_of_nat)
    with n have "of_nat n \<in> {w :: 16 word. P (unat w)}" by simp
    then have "unat (of_nat n :: 16 word) \<in> unat ` {w :: 16 word. P (unat w)}"
      by (rule imageI)
    with \<open>unat (of_nat n :: 16 word) = n\<close> show "n \<in> unat ` {w :: 16 word. P (unat w)}"
      by simp
  qed
  moreover have "inj_on unat {w :: 16 word. P (unat w)}"
    by (rule inj_onI) (auto dest: unsigned_word_eqI)
  ultimately show ?thesis
    using card_image [of unat "{w :: 16 word. P (unat w)}"] by simp
qed

lemma pairs_card:
  "card {(b0, b1). Q (Uint16 b0 b1)} = card {w. Q w}"
proof -
  let ?f = "\<lambda>p. Uint16 (fst p) (snd p)"
  have "?f ` {(b0, b1). Q (Uint16 b0 b1)} = {w. Q w}"
  proof (rule set_eqI, rule iffI)
    fix w assume "w \<in> ?f ` {(b0, b1). Q (Uint16 b0 b1)}"
    then show "w \<in> {w. Q w}" by auto
  next
    fix w assume "w \<in> {w. Q w}"
    then have "Q (Uint16 (ucast (drop_bit 8 w)) (ucast w))" by (simp add: Uint16_split)
    then have "(ucast (drop_bit 8 w), ucast w) \<in> {(b0, b1). Q (Uint16 b0 b1)}" by simp
    then have "?f (ucast (drop_bit 8 w), ucast w) \<in> ?f ` {(b0, b1). Q (Uint16 b0 b1)}"
      by (rule imageI)
    then show "w \<in> ?f ` {(b0, b1). Q (Uint16 b0 b1)}"
      by (simp add: Uint16_split)
  qed
  moreover have "inj_on ?f {(b0, b1). Q (Uint16 b0 b1)}"
    by (rule inj_onI) (auto dest: Uint16_inj)
  ultimately show ?thesis
    using card_image [of ?f "{(b0, b1). Q (Uint16 b0 b1)}"] by simp
qed

lemma Itoa_eq_iff: "0 \<le> x \<Longrightarrow> 0 \<le> y \<Longrightarrow> Itoa x = Itoa y \<longleftrightarrow> x = y"
proof
  assume xy: "0 \<le> x" "0 \<le> y" and e: "Itoa x = Itoa y"
  then have "decimal_value (digits10 (nat x)) = decimal_value (digits10 (nat y))"
    by (simp add: Itoa_def)
  with xy show "x = y" by (simp add: decimal_value_digits10)
qed simp

lemma crypto_num: "generateSecureOTP (CrandOk b0 b1) intn
    = Itoa (int (unat (Uint16 b0 b1) mod 9000) + 1000)"
  by (simp add: generateSecureOTP_def uint_mod zmod_int)

lemma crypto_preimages_residue:
  assumes "v < 9000"
  shows "card (crypto_preimages intn (Itoa (int v + 1000))) = (if v < 2536 then 8 else 7)"
proof -
  have "crypto_preimages intn (Itoa (int v + 1000))
      = {(b0, b1). unat (Uint16 b0 b1) mod 9000 = v}"
    unfolding crypto_preimages_def crypto_num
    by (auto simp: Itoa_eq_iff)
  then have "card (crypto_preimages intn (Itoa (int v + 1000)))
      = card {n::nat. n < 65536 \<and> n mod 9000 = v}"
    using pairs_card [of "\<lambda>w. unat w mod 9000 = v"]
      word16_card [of "\<lambda>n. n mod 9000 = v"] by simp
  with assms show ?thesis
    by (simp add: residues_card)
qed

lemma four_digits:
  assumes "1000 \<le> x" and "x \<le> 9999"
  shows "length (Itoa x) = 4 \<and> list_all is_digit (Itoa x)
       \<and> 1000 \<le> decimal_value (Itoa x) \<and> decimal_value (Itoa x) \<le> 9999
       \<and> Itoa x = Itoa (int (decimal_value (Itoa x)))"
proof -
  have n: "1000 \<le> nat x" "nat x \<le> 9999" using assms by linarith+
  have v: "decimal_value (Itoa x) = nat x"
    using assms by (simp add: Itoa_def decimal_value_digits10)
  have "length (Itoa x) = 4"
    using assms n by (simp add: Itoa_def digits10_length4)
  moreover have "list_all is_digit (Itoa x)"
    using assms by (simp add: Itoa_def digits10_digits list_all_iff)
  moreover have "int (nat x) = x" using assms by simp
  ultimately show ?thesis using n v by simp
qed

lemma crypto_range: "1000 \<le> int (unat (Uint16 b0 b1) mod 9000) + 1000
    \<and> int (unat (Uint16 b0 b1) mod 9000) + 1000 \<le> 9999"
proof -
  have "unat (Uint16 b0 b1) mod 9000 < 9000" by simp
  then show ?thesis by linarith
qed

lemma Itoa_1000: "Itoa 1000 = ''1000''"
  by (simp add: Itoa_def digits10.simps digit_char_def)

lemma Itoa_9999: "Itoa 9999 = ''9999''"
  by (simp add: Itoa_def digits10.simps digit_char_def)

text \<open>
  C6. Whatever the two bytes on the crypto path, and whatever value in the range of
  \<^verbatim>\<open>Intn(9000)\<close> on the fallback path, the result is a string of exactly four ASCII
  digits, it reads back as a number from 1000 to 9999, and it is that number's decimal
  form. The failure of \<^verbatim>\<open>crand.Read\<close> is a case of the function, which returns a code
  in it as in the other: the function has no error result.
\<close>

theorem generateSecureOTP_four_digits:
  assumes "cr = CrandErr \<longrightarrow> 0 \<le> intn \<and> intn < 9000"
  shows "length (generateSecureOTP cr intn) = 4
       \<and> list_all is_digit (generateSecureOTP cr intn)
       \<and> 1000 \<le> decimal_value (generateSecureOTP cr intn)
       \<and> decimal_value (generateSecureOTP cr intn) \<le> 9999
       \<and> generateSecureOTP cr intn = Itoa (int (decimal_value (generateSecureOTP cr intn)))"
proof (cases cr)
  case CrandErr
  with assms have r: "1000 \<le> 1000 + intn" "1000 + intn \<le> 9999" by simp_all
  have g: "generateSecureOTP cr intn = Itoa (1000 + intn)"
    using CrandErr by (simp add: generateSecureOTP_def)
  show ?thesis
    unfolding g using four_digits [OF r] by simp
next
  case (CrandOk b0 b1)
  note r = crypto_range [of b0 b1]
  have g: "generateSecureOTP cr intn = Itoa (int (unat (Uint16 b0 b1) mod 9000) + 1000)"
    using CrandOk by (simp add: crypto_num)
  show ?thesis
    unfolding g using four_digits [of "int (unat (Uint16 b0 b1) mod 9000) + 1000"] r
    by blast
qed

theorem generateSecureOTP_four_digits_witness:
  "(0::int) \<le> 8999 \<and> (8999::int) < 9000
   \<and> generateSecureOTP CrandErr 8999 = ''9999''
   \<and> length (generateSecureOTP CrandErr 8999) = 4
   \<and> list_all is_digit (generateSecureOTP CrandErr 8999)
   \<and> decimal_value (generateSecureOTP CrandErr 8999) = 9999
   \<and> generateSecureOTP (CrandOk 255 255) 0 = ''3535''
   \<and> length (generateSecureOTP (CrandOk 255 255) 0) = 4"
proof -
  have h: "CrandErr = CrandErr \<longrightarrow> (0::int) \<le> 8999 \<and> (8999::int) < 9000"
    and h': "CrandOk 255 255 = CrandErr \<longrightarrow> (0::int) \<le> 0 \<and> (0::int) < 9000"
    by simp_all
  from generateSecureOTP_four_digits [OF h] generateSecureOTP_four_digits [OF h']
  show ?thesis
    by (simp add: generateSecureOTP_def Uint16_def Itoa_def digits10.simps digit_char_def
        decimal_value_def digit_value_def is_digit_def)
qed

lemma fallback_one_to_one:
  assumes "0 \<le> a" and "0 \<le> b"
  shows "generateSecureOTP CrandErr a = generateSecureOTP CrandErr b \<longleftrightarrow> a = b"
  using assms by (simp add: generateSecureOTP_def Itoa_eq_iff)

text \<open>
  C2. The crypto path takes the two bytes as a 16-bit number modulo 9000. Of the 65536
  inputs, 65536 - 7 * 9000 = 2536 remain after seven full rounds of the 9000 residues, so
  the codes are not equally likely: \<open>1000\<close> is the result of 8 of the two-byte inputs,
  \<open>9999\<close> of 7. (The fallback path adds 1000 to a number below 9000 and is one-to-one.)
\<close>

theorem crypto_modulo_bias:
  "card (crypto_preimages 0 ''1000'') = 8 \<and> card (crypto_preimages 0 ''9999'') = 7
   \<and> card (crypto_preimages 0 ''1000'') \<noteq> card (crypto_preimages 0 ''9999'')"
proof -
  have "card (crypto_preimages 0 (Itoa (int 0 + 1000))) = 8"
    by (subst crypto_preimages_residue) simp_all
  moreover have "card (crypto_preimages 0 (Itoa (int 8999 + 1000))) = 7"
    by (subst crypto_preimages_residue) simp_all
  ultimately show ?thesis
    by (simp add: Itoa_1000 Itoa_9999)
qed

end
